theory Spec2Isabelle
  imports Main "HOL-Library.Sublist"
begin

section \<open>Venuu: event search, the time-bounded cache and the preferences store\<close>

text \<open>
  A shallow embedding of \<^verbatim>\<open>src/ts/api.ts\<close> (classes \<^verbatim>\<open>EventsApi\<close> and
  \<^verbatim>\<open>UserPreferencesApi\<close>) and of the comparator that \<^verbatim>\<open>VenuuApp.applyFilters\<close> sorts with.

  Conventions of the embedding:
  \<^item> a JavaScript string is a \<open>string\<close>, a list of code units; the model covers code units
    below 256 (ASCII and Latin-1, which holds the Icelandic letters of the data);
  \<^item> an optional property is an \<open>option\<close>: \<open>None\<close> is \<^verbatim>\<open>undefined\<close>;
  \<^item> a JavaScript number that may be \<^verbatim>\<open>NaN\<close> is an \<open>int option\<close>: \<open>None\<close> is
    \<^verbatim>\<open>NaN\<close> (time values and their differences are integers otherwise);
  \<^item> \<^verbatim>\<open>Date.parse\<close> is implementation-defined outside the ISO format, so the
    host's parser is a parameter \<open>parse\<close> of every function that builds a \<^verbatim>\<open>Date\<close>;
  \<^item> a thrown exception is \<open>Inl\<close> of a sum type, network and storage effects are
    explicit: the state goes in and comes out, and the fetches made are listed.
\<close>

subsection \<open>JavaScript primitives used by the code\<close>

text \<open>Truthiness of an optional string: \<^verbatim>\<open>undefined\<close> and \<^verbatim>\<open>""\<close> are falsy.\<close>

definition truthy :: "string option \<Rightarrow> bool" where
  "truthy v = (case v of None \<Rightarrow> False | Some s \<Rightarrow> s \<noteq> [])"

text \<open>\<^verbatim>\<open>a || b\<close> on optional strings, and \<^verbatim>\<open>a || "literal"\<close> closing a chain.\<close>

definition js_or :: "string option \<Rightarrow> string option \<Rightarrow> string option" where
  "js_or a b = (if truthy a then a else b)"

definition js_or_str :: "string option \<Rightarrow> string \<Rightarrow> string" where
  "js_or_str a d = (case a of None \<Rightarrow> d | Some s \<Rightarrow> if s \<noteq> [] then s else d)"

text \<open>
  \<^verbatim>\<open>String.prototype.toLowerCase\<close> on code units below 256: the upper-case letters
  are A..Z and the Latin-1 letters 192..222 without the multiplication sign 215; the
  lower-case letter is 32 above, which is bit 5 set.
\<close>

definition isUpper :: "char \<Rightarrow> bool" where
  "isUpper c =
     (let n = (of_char c :: nat)
      in (65 \<le> n \<and> n \<le> 90) \<or> (192 \<le> n \<and> n \<le> 222 \<and> n \<noteq> 215))"

fun lower_unit :: "char \<Rightarrow> char" where
  "lower_unit (Char b0 b1 b2 b3 b4 b5 b6 b7) =
     (if isUpper (Char b0 b1 b2 b3 b4 b5 b6 b7) then Char b0 b1 b2 b3 b4 True b6 b7
      else Char b0 b1 b2 b3 b4 b5 b6 b7)"

definition toLowerCase :: "string \<Rightarrow> string" where
  "toLowerCase s = map lower_unit s"

text \<open>\<^verbatim>\<open>s.includes(q)\<close> on strings: \<open>q\<close> occurs in \<open>s\<close> as a contiguous run.\<close>

fun includes_str :: "string \<Rightarrow> string \<Rightarrow> bool" where
  "includes_str s [] = True"
| "includes_str [] (q # qs) = False"
| "includes_str (c # cs) (q # qs) = (prefix (q # qs) (c # cs) \<or> includes_str cs (q # qs))"

text \<open>
  \<^verbatim>\<open>String.prototype.trim\<close>: the white space and line terminators below 256 are
  tab, line feed, vertical tab, form feed, carriage return, space and no-break space.
\<close>

definition isSpace :: "char \<Rightarrow> bool" where
  "isSpace c = ((of_char c :: nat) \<in> {9, 10, 11, 12, 13, 32, 160})"

definition trim :: "string \<Rightarrow> string" where
  "trim s = rev (dropWhile isSpace (rev (dropWhile isSpace s)))"

text \<open>
  \<^verbatim>\<open>new Date(s)\<close> as its time value. The empty string is never a date; every other
  string goes to the host's parser. Comparing two \<^verbatim>\<open>Date\<close> objects with \<^verbatim>\<open><\<close> or
  \<^verbatim>\<open>>\<close> compares the time values, and is false as soon as one of them is \<^verbatim>\<open>NaN\<close>.
\<close>

definition new_Date :: "(string \<Rightarrow> int option) \<Rightarrow> string \<Rightarrow> int option" where
  "new_Date parse s = (if s = [] then None else parse s)"

definition date_lt :: "int option \<Rightarrow> int option \<Rightarrow> bool" where
  "date_lt a b = (case a of None \<Rightarrow> False | Some x \<Rightarrow> (case b of None \<Rightarrow> False | Some y \<Rightarrow> x < y))"

definition date_gt :: "int option \<Rightarrow> int option \<Rightarrow> bool" where
  "date_gt a b = date_lt b a"


subsection \<open>The event record\<close>

text \<open>
  \<^verbatim>\<open>interface VenuuEvent\<close>, with the properties the modelled functions read. The
  interface types \<^verbatim>\<open>category\<close> as a list, the code also accepts a single string,
  so the property has three shapes.
\<close>

record language_en =
  en_title :: "string option"
  en_description :: "string option"
  en_place :: "string option"

record language_obj =
  en :: "language_en option"

datatype category_value = NoCategory | CategoryString string | CategoryArray "string list"

record VenuuEvent =
  id_field :: string
  title :: "string option"
  title_en :: "string option"
  language :: "language_obj option"
  start :: "string option"
  date :: "string option"
  location :: "string option"
  formatted_address :: "string option"
  city :: "string option"
  category :: category_value
  event_category :: "string option"
  description :: "string option"

text \<open>\<^verbatim>\<open>event.language && event.language.en && event.language.en.title\<close>, and the same for \<^verbatim>\<open>place\<close>.\<close>

definition language_en_title :: "VenuuEvent \<Rightarrow> string option" where
  "language_en_title event =
     (case language event of None \<Rightarrow> None
      | Some l \<Rightarrow> (case en l of None \<Rightarrow> None | Some e \<Rightarrow> en_title e))"

definition language_en_place :: "VenuuEvent \<Rightarrow> string option" where
  "language_en_place event =
     (case language event of None \<Rightarrow> None
      | Some l \<Rightarrow> (case en l of None \<Rightarrow> None | Some e \<Rightarrow> en_place e))"

text \<open>\<^verbatim>\<open>event.category\<close> where the code uses it as a string operand of \<^verbatim>\<open>||\<close>.\<close>

definition category_string :: "VenuuEvent \<Rightarrow> string option" where
  "category_string event =
     (case category event of CategoryString s \<Rightarrow> Some s | _ \<Rightarrow> None)"

subsection \<open>\<^verbatim>\<open>EventsApi.searchEvents\<close>: the filter callback\<close>

record SearchParams =
  query :: "string option"
  categoryP :: "string option"
  locationP :: "string option"
  startDate :: "string option"
  endDate :: "string option"

text \<open>The three local constants of the callback, as the source computes them.\<close>

definition searchEvents_title :: "VenuuEvent \<Rightarrow> string" where
  "searchEvents_title event =
     js_or_str (js_or (js_or (title event) (title_en event)) (language_en_title event)) []"

definition searchEvents_location :: "VenuuEvent \<Rightarrow> string" where
  "searchEvents_location event =
     js_or_str
       (js_or (js_or (js_or (location event) (formatted_address event)) (city event))
          (language_en_place event)) []"

definition searchEvents_categories :: "VenuuEvent \<Rightarrow> string list" where
  "searchEvents_categories event =
     (case category event of
        CategoryArray cs \<Rightarrow> cs
      | _ \<Rightarrow> [js_or_str (js_or (category_string event) (event_category event)) []])"

text \<open>The text search block: skipped when \<^verbatim>\<open>searchParams.query\<close> is falsy.\<close>

definition matchesText :: "string \<Rightarrow> VenuuEvent \<Rightarrow> bool" where
  "matchesText q event =
     (let query = toLowerCase q
      in includes_str (toLowerCase (searchEvents_title event)) query
         \<or> (case description event of None \<Rightarrow> False
             | Some d \<Rightarrow> d \<noteq> [] \<and> includes_str (toLowerCase d) query)
         \<or> includes_str (toLowerCase (searchEvents_location event)) query
         \<or> list_ex (\<lambda>cat. includes_str (toLowerCase cat) query) (searchEvents_categories event))"

text \<open>The date range block: entered when a bound is given.\<close>

definition dateRange_ok :: "(string \<Rightarrow> int option) \<Rightarrow> SearchParams \<Rightarrow> VenuuEvent \<Rightarrow> bool" where
  "dateRange_ok parse searchParams event =
     (if truthy (startDate searchParams) \<or> truthy (endDate searchParams) then
        (let eventDate = new_Date parse (js_or_str (js_or (start event) (date event)) [])
         in if (case startDate searchParams of None \<Rightarrow> False
                | Some b \<Rightarrow> b \<noteq> [] \<and> date_lt eventDate (new_Date parse b))
            then False
            else if (case endDate searchParams of None \<Rightarrow> False
                | Some b \<Rightarrow> b \<noteq> [] \<and> date_gt eventDate (new_Date parse b))
            then False
            else True)
      else True)"

text \<open>The callback: each block returns \<^verbatim>\<open>false\<close> early, the end returns \<^verbatim>\<open>true\<close>.\<close>

definition searchEvents_keep :: "(string \<Rightarrow> int option) \<Rightarrow> SearchParams \<Rightarrow> VenuuEvent \<Rightarrow> bool" where
  "searchEvents_keep parse searchParams event =
     (if (case query searchParams of None \<Rightarrow> False
          | Some q \<Rightarrow> q \<noteq> [] \<and> \<not> matchesText q event) then False
      else if (case categoryP searchParams of None \<Rightarrow> False
          | Some c \<Rightarrow> c \<noteq> [] \<and> c \<notin> set (searchEvents_categories event)) then False
      else if (case locationP searchParams of None \<Rightarrow> False
          | Some l \<Rightarrow> l \<noteq> [] \<and> searchEvents_location event \<noteq> l) then False
      else dateRange_ok parse searchParams event)"

text \<open>\<^verbatim>\<open>events.filter(...)\<close> over the list that \<^verbatim>\<open>getEvents\<close> returned.\<close>

definition searchEvents_filter ::
    "(string \<Rightarrow> int option) \<Rightarrow> SearchParams \<Rightarrow> VenuuEvent list \<Rightarrow> VenuuEvent list" where
  "searchEvents_filter parse searchParams events =
     filter (searchEvents_keep parse searchParams) events"

subsection \<open>Field resolution as the specification words it\<close>

text \<open>
  The first non-empty value of a fallback chain, the empty string when there is none.
\<close>

fun first_nonempty :: "string option list \<Rightarrow> string" where
  "first_nonempty [] = []"
| "first_nonempty (None # vs) = first_nonempty vs"
| "first_nonempty (Some s # vs) = (if s = [] then first_nonempty vs else s)"

definition resolved_title :: "VenuuEvent \<Rightarrow> string" where
  "resolved_title event = first_nonempty [title event, title_en event, language_en_title event]"

definition resolved_location :: "VenuuEvent \<Rightarrow> string" where
  "resolved_location event =
     first_nonempty [location event, formatted_address event, city event, language_en_place event]"

definition resolved_categories :: "VenuuEvent \<Rightarrow> string list" where
  "resolved_categories event =
     (case category event of
        CategoryArray cs \<Rightarrow> cs
      | CategoryString s \<Rightarrow> [first_nonempty [Some s, event_category event]]
      | NoCategory \<Rightarrow> [first_nonempty [None, event_category event]])"


text \<open>\<open>q\<close> is a case-insensitive substring of \<open>s\<close>.\<close>

definition ci_substring :: "string \<Rightarrow> string \<Rightarrow> bool" where
  "ci_substring q s = sublist (toLowerCase q) (toLowerCase s)"

text \<open>The text match of the specification, on the resolved values.\<close>

definition text_match :: "string \<Rightarrow> VenuuEvent \<Rightarrow> bool" where
  "text_match q event =
     (ci_substring q (resolved_title event)
      \<or> ci_substring q (first_nonempty [description event])
      \<or> ci_substring q (resolved_location event)
      \<or> list_ex (ci_substring q) (resolved_categories event))"

text \<open>The keeping rule of the specification: every given filter matches on the resolved values.\<close>

definition select_keep :: "(string \<Rightarrow> int option) \<Rightarrow> SearchParams \<Rightarrow> VenuuEvent \<Rightarrow> bool" where
  "select_keep parse searchParams event =
     ((case query searchParams of None \<Rightarrow> True | Some q \<Rightarrow> q = [] \<or> text_match q event)
      \<and> (case categoryP searchParams of None \<Rightarrow> True
          | Some c \<Rightarrow> c = [] \<or> c \<in> set (resolved_categories event))
      \<and> (case locationP searchParams of None \<Rightarrow> True
          | Some l \<Rightarrow> l = [] \<or> resolved_location event = l)
      \<and> dateRange_ok parse searchParams event)"

text \<open>\<open>select(E, q, f)\<close>: the query \<open>q\<close> put into the filter state \<open>f\<close>.\<close>

definition select :: "(string \<Rightarrow> int option) \<Rightarrow> VenuuEvent list \<Rightarrow> string \<Rightarrow> SearchParams \<Rightarrow> VenuuEvent list" where
  "select parse E q f = searchEvents_filter parse (f\<lparr>query := Some q\<rparr>) E"

subsection \<open>\<^verbatim>\<open>EventsApi.getEvents\<close>: the time-bounded cache\<close>

text \<open>
  The instance fields \<^verbatim>\<open>eventsCache\<close> (\<open>None\<close> is \<^verbatim>\<open>null\<close>) and \<^verbatim>\<open>lastFetch\<close>;
  \<^verbatim>\<open>cacheExpiry\<close> is initialised once and never assigned again.
\<close>

record EventsApi =
  eventsCache :: "VenuuEvent list option"
  lastFetch :: int

definition cacheExpiry :: int where
  "cacheExpiry = 5 * 60 * 1000"

definition new_EventsApi :: EventsApi where
  "new_EventsApi = \<lparr>eventsCache = None, lastFetch = 0\<rparr>"

text \<open>
  What the network answers during one call. \<open>Loaded evs\<close>: the awaited call resolves to
  the JSON list \<open>evs\<close>. \<open>Failed\<close>: it rejects or throws (no connection, a body that
  \<^verbatim>\<open>response.json()\<close> cannot read, and for the primary endpoint a status that is not
  ok). An answer is only looked at when the code makes the fetch. The answers follow the
  declared type \<^verbatim>\<open>VenuuEvent[]\<close>: a primary answer of another content type, which
  \<^verbatim>\<open>request\<close> hands on as text, is not among them.
\<close>

datatype 'a outcome = Failed | Loaded 'a

record network =
  primary :: "VenuuEvent list outcome"
  fallback :: "VenuuEvent list outcome"

text \<open>The fetches a call makes, in order: \<^verbatim>\<open>GET /api/events\<close> and \<^verbatim>\<open>fetch("./api-data.json")\<close>.\<close>

datatype io = FetchPrimary | FetchFallback

text \<open>\<^verbatim>\<open>new Error("Unable to load events data")\<close>.\<close>

datatype error = UnableToLoadEvents

type_synonym 'a call = "(error + 'a) \<times> EventsApi \<times> io list"

definition returned :: "'a call \<Rightarrow> error + 'a" where
  "returned c = fst c"

definition state_after :: "'a call \<Rightarrow> EventsApi" where
  "state_after c = fst (snd c)"

definition fetches :: "'a call \<Rightarrow> io list" where
  "fetches c = snd (snd c)"

text \<open>The \<^verbatim>\<open>try\<close> block of \<^verbatim>\<open>getEvents\<close> with its nested fallback.\<close>

definition fetchEvents :: "int \<Rightarrow> network \<Rightarrow> EventsApi \<Rightarrow> VenuuEvent list call" where
  "fetchEvents now net this =
     (case primary net of
        Loaded events \<Rightarrow>
          (Inr events, this\<lparr>eventsCache := Some events, lastFetch := now\<rparr>, [FetchPrimary])
      | Failed \<Rightarrow>
          (case fallback net of
             Loaded events \<Rightarrow>
               (Inr events, this\<lparr>eventsCache := Some events, lastFetch := now\<rparr>,
                [FetchPrimary, FetchFallback])
           | Failed \<Rightarrow> (Inl UnableToLoadEvents, this, [FetchPrimary, FetchFallback])))"

text \<open>
  \<^verbatim>\<open>getEvents\<close> at time \<open>now\<close> (\<^verbatim>\<open>Date.now()\<close>, milliseconds). A cached list is
  truthy, also when it is empty.
\<close>

definition getEvents :: "int \<Rightarrow> network \<Rightarrow> EventsApi \<Rightarrow> VenuuEvent list call" where
  "getEvents now net this =
     (case eventsCache this of
        Some cached \<Rightarrow>
          if now - lastFetch this < cacheExpiry then (Inr cached, this, [])
          else fetchEvents now net this
      | None \<Rightarrow> fetchEvents now net this)"

text \<open>\<^verbatim>\<open>searchEvents\<close>: the list comes from \<^verbatim>\<open>getEvents\<close>, an error of it goes on to the caller.\<close>

definition searchEvents ::
    "(string \<Rightarrow> int option) \<Rightarrow> int \<Rightarrow> network \<Rightarrow> EventsApi \<Rightarrow> SearchParams \<Rightarrow> VenuuEvent list call" where
  "searchEvents parse now net this searchParams =
     (case getEvents now net this of
        (Inl e, this', io) \<Rightarrow> (Inl e, this', io)
      | (Inr events, this', io) \<Rightarrow> (Inr (searchEvents_filter parse searchParams events), this', io))"

text \<open>A call is a cache miss when nothing is cached or the cached list has expired.\<close>

definition cache_miss :: "int \<Rightarrow> EventsApi \<Rightarrow> bool" where
  "cache_miss now this = (eventsCache this = None \<or> cacheExpiry \<le> now - lastFetch this)"

text \<open>\<^verbatim>\<open>getEventById\<close>: \<^verbatim>\<open>events.find\<close> is \<open>find\<close>, \<^verbatim>\<open>undefined\<close> is \<open>None\<close>.\<close>

definition getEventById :: "int \<Rightarrow> network \<Rightarrow> EventsApi \<Rightarrow> string \<Rightarrow> VenuuEvent option call" where
  "getEventById now net this eventId =
     (case getEvents now net this of
        (Inl e, this', io) \<Rightarrow> (Inl e, this', io)
      | (Inr events, this', io) \<Rightarrow>
          (Inr (find (\<lambda>event. id_field event = eventId) events), this', io))"

subsection \<open>\<^verbatim>\<open>VenuuApp.applyFilters\<close>: the comparator of the sorting step\<close>





text \<open>
  \<^verbatim>\<open>filtered.sort\<close> itself is not part of the development. ECMAScript fixes the
  result of \<^verbatim>\<open>Array.prototype.sort\<close> only for a consistent comparator, which never
  returns \<^verbatim>\<open>NaN\<close>; with any other comparator the order is left to the engine.
\<close>

subsection \<open>\<^verbatim>\<open>UserPreferencesApi\<close>: the preferences store\<close>

record UserPreferences =
  favorites :: "string list"
  theme :: string
  language_pref :: string
  notifications :: bool
  searchHistory :: "string list"

text \<open>
  \<^verbatim>\<open>Partial<UserPreferences>\<close>: an object holding some of the five keys, each with a
  value of its type. It is what \<^verbatim>\<open>JSON.parse\<close> makes of a stored blob, and the
  argument of \<^verbatim>\<open>savePreferences\<close>.
\<close>

record Partial_UserPreferences =
  favorites_key :: "string list option"
  theme_key :: "string option"
  language_key :: "string option"
  notifications_key :: "bool option"
  searchHistory_key :: "string list option"

text \<open>\<^verbatim>\<open>{ ...a, ...b }\<close>: the keys of \<open>b\<close> override those of \<open>a\<close>, one by one.\<close>

definition spread :: "UserPreferences \<Rightarrow> Partial_UserPreferences \<Rightarrow> UserPreferences" where
  "spread a b =
     \<lparr>favorites = (case favorites_key b of None \<Rightarrow> favorites a | Some v \<Rightarrow> v),
      theme = (case theme_key b of None \<Rightarrow> theme a | Some v \<Rightarrow> v),
      language_pref = (case language_key b of None \<Rightarrow> language_pref a | Some v \<Rightarrow> v),
      notifications = (case notifications_key b of None \<Rightarrow> notifications a | Some v \<Rightarrow> v),
      searchHistory = (case searchHistory_key b of None \<Rightarrow> searchHistory a | Some v \<Rightarrow> v)\<rparr>"

text \<open>A full preferences object seen as a partial one: every key is present.\<close>

definition all_keys :: "UserPreferences \<Rightarrow> Partial_UserPreferences" where
  "all_keys p =
     \<lparr>favorites_key = Some (favorites p), theme_key = Some (theme p),
      language_key = Some (language_pref p), notifications_key = Some (notifications p),
      searchHistory_key = Some (searchHistory p)\<rparr>"

text \<open>
  The entry under \<^verbatim>\<open>"venuu-preferences"\<close>, by what the code can do with it: no entry
  (\<^verbatim>\<open>getItem\<close> gives \<^verbatim>\<open>null\<close>), the empty string, a text that \<^verbatim>\<open>JSON.parse\<close>
  throws on, or the text of an object with some of the five keys (a text that parses to
  anything else adds no key, as the object without keys does). The two flags say
  whether the browser's storage throws on reading (access denied) and on writing
  (quota exceeded).
\<close>

datatype stored_item = NoItem | EmptyText | MalformedText | JsonText Partial_UserPreferences

record localStorage =
  item :: stored_item
  getItem_throws :: bool
  setItem_throws :: bool

datatype storage_error = SecurityError | SyntaxError

definition defaultPrefs :: UserPreferences where
  "defaultPrefs =
     \<lparr>favorites = [], theme = ''light'', language_pref = ''en'', notifications = True,
      searchHistory = []\<rparr>"

definition getItem :: "localStorage \<Rightarrow> storage_error + stored_item" where
  "getItem st = (if getItem_throws st then Inl SecurityError else Inr (item st))"

text \<open>The \<^verbatim>\<open>try\<close> block of \<^verbatim>\<open>getPreferences\<close>: a falsy \<^verbatim>\<open>stored\<close> is not parsed.\<close>

definition getPreferences_try :: "localStorage \<Rightarrow> storage_error + UserPreferences" where
  "getPreferences_try st =
     (case getItem st of
        Inl e \<Rightarrow> Inl e
      | Inr stored \<Rightarrow>
          (case stored of
             NoItem \<Rightarrow> Inr defaultPrefs
           | EmptyText \<Rightarrow> Inr defaultPrefs
           | MalformedText \<Rightarrow> Inl SyntaxError
           | JsonText blob \<Rightarrow> Inr (spread defaultPrefs blob)))"

text \<open>\<^verbatim>\<open>getPreferences\<close>: the \<^verbatim>\<open>catch\<close> block logs and returns the defaults.\<close>

definition getPreferences :: "localStorage \<Rightarrow> UserPreferences" where
  "getPreferences st =
     (case getPreferences_try st of Inl e \<Rightarrow> defaultPrefs | Inr prefs \<Rightarrow> prefs)"

text \<open>
  \<^verbatim>\<open>savePreferences\<close>: when \<^verbatim>\<open>setItem\<close> throws, the \<^verbatim>\<open>catch\<close> block logs and the
  entry stays as it was. The text written is read back by \<^verbatim>\<open>JSON.parse\<close> as the
  object that was written.
\<close>

definition savePreferences :: "localStorage \<Rightarrow> Partial_UserPreferences \<Rightarrow> localStorage" where
  "savePreferences st preferences =
     (let currentPrefs = getPreferences st;
          updatedPrefs = spread currentPrefs preferences
      in if setItem_throws st then st else st\<lparr>item := JsonText (all_keys updatedPrefs)\<rparr>)"

definition addToFavorites :: "localStorage \<Rightarrow> string \<Rightarrow> localStorage" where
  "addToFavorites st eventId =
     (let prefs = getPreferences st
      in if eventId \<notin> set (favorites prefs)
         then savePreferences st (all_keys (prefs\<lparr>favorites := favorites prefs @ [eventId]\<rparr>))
         else st)"

definition removeFromFavorites :: "localStorage \<Rightarrow> string \<Rightarrow> localStorage" where
  "removeFromFavorites st eventId =
     (let prefs = getPreferences st
      in savePreferences st
           (all_keys (prefs\<lparr>favorites := filter (\<lambda>id. id \<noteq> eventId) (favorites prefs)\<rparr>)))"

definition isFavorited :: "localStorage \<Rightarrow> string \<Rightarrow> bool" where
  "isFavorited st eventId = (eventId \<in> set (favorites (getPreferences st)))"

definition getFavorites :: "localStorage \<Rightarrow> string list" where
  "getFavorites st = favorites (getPreferences st)"

definition addSearchToHistory :: "localStorage \<Rightarrow> string \<Rightarrow> localStorage" where
  "addSearchToHistory st q =
     (if trim q = [] then st
      else
        (let prefs = getPreferences st;
             history = q # filter (\<lambda>item. item \<noteq> q) (searchHistory prefs)
         in savePreferences st (all_keys (prefs\<lparr>searchHistory := take 10 history\<rparr>))))"

definition getSearchHistory :: "localStorage \<Rightarrow> string list" where
  "getSearchHistory st = searchHistory (getPreferences st)"

definition clearSearchHistory :: "localStorage \<Rightarrow> localStorage" where
  "clearSearchHistory st =
     (let prefs = getPreferences st
      in savePreferences st (all_keys (prefs\<lparr>searchHistory := []\<rparr>)))"

subsection \<open>Sample inputs\<close>

text \<open>
  The two events of the specification's scenario, an event without any date, a host
  parser that knows the two dates (as UTC midnights in milliseconds), and a collation
  by code units.
\<close>

definition blank_event :: VenuuEvent where
  "blank_event =
     \<lparr>id_field = [], title = None, title_en = None, language = None, start = None,
      date = None, location = None, formatted_address = None, city = None,
      category = NoCategory, event_category = None, description = None\<rparr>"

definition event_a :: VenuuEvent where
  "event_a = blank_event\<lparr>id_field := ''a'', category := CategoryArray [''Music''],
     start := Some ''2024-01-01''\<rparr>"

definition event_b :: VenuuEvent where
  "event_b = blank_event\<lparr>id_field := ''b'', category := CategoryString ''Art'',
     start := Some ''2024-06-01''\<rparr>"

definition event_undated :: VenuuEvent where
  "event_undated = blank_event\<lparr>id_field := ''c'', title_en := Some ''Jazz Night'',
     city := Some ''Akureyri'', event_category := Some ''Music''\<rparr>"

definition sample_parse :: "string \<Rightarrow> int option" where
  "sample_parse s =
     (if s = ''2024-01-01'' then Some 1704067200000
      else if s = ''2024-06-01'' then Some 1717200000000 else None)"


definition no_filters :: SearchParams where
  "no_filters = \<lparr>query = None, categoryP = None, locationP = None, startDate = None, endDate = None\<rparr>"


definition storage_with :: "Partial_UserPreferences \<Rightarrow> localStorage" where
  "storage_with blob = \<lparr>item = JsonText blob, getItem_throws = False, setItem_throws = False\<rparr>"

definition no_keys :: Partial_UserPreferences where
  "no_keys =
     \<lparr>favorites_key = None, theme_key = None, language_key = None, notifications_key = None,
      searchHistory_key = None\<rparr>"

section \<open>Properties\<close>

subsection \<open>Helper lemmas\<close>

lemma includes_str_sublist: "includes_str s q = sublist q s"
  by (induction s q rule: includes_str.induct) (simp_all add: sublist_Cons_right)

lemma js_or_str_first_nonempty2:
  "js_or_str (js_or a b) [] = first_nonempty [a, b]"
  by (cases a; cases b) (simp_all add: js_or_def js_or_str_def truthy_def)

lemma js_or_str_first_nonempty3:
  "js_or_str (js_or (js_or a b) c) [] = first_nonempty [a, b, c]"
  by (cases a; cases b; cases c) (simp_all add: js_or_def js_or_str_def truthy_def)

lemma js_or_str_first_nonempty4:
  "js_or_str (js_or (js_or (js_or a b) c) d) [] = first_nonempty [a, b, c, d]"
  by (cases a; cases b; cases c; cases d) (simp_all add: js_or_def js_or_str_def truthy_def)

lemma searchEvents_title_resolved: "searchEvents_title event = resolved_title event"
  by (simp only: searchEvents_title_def resolved_title_def js_or_str_first_nonempty3)

lemma searchEvents_location_resolved: "searchEvents_location event = resolved_location event"
  by (simp only: searchEvents_location_def resolved_location_def js_or_str_first_nonempty4)

lemma searchEvents_categories_resolved:
  "searchEvents_categories event = resolved_categories event"
  by (cases "category event")
     (simp_all add: searchEvents_categories_def resolved_categories_def category_string_def
        js_or_str_first_nonempty2 del: first_nonempty.simps)

lemma first_nonempty_empty_iff:
  "first_nonempty vs = [] \<longleftrightarrow> list_all (\<lambda>v. v = None \<or> v = Some []) vs"
  by (induction vs rule: first_nonempty.induct) auto

lemma first_nonempty_first:
  "first_nonempty vs \<noteq> [] \<Longrightarrow>
     \<exists>i<length vs. vs ! i = Some (first_nonempty vs)
        \<and> (\<forall>j<i. vs ! j = None \<or> vs ! j = Some [])"
proof (induction vs rule: first_nonempty.induct)
  case 1
  then show ?case by simp
next
  case (2 vs)
  then obtain i where i: "i < length vs" "vs ! i = Some (first_nonempty vs)"
      "\<forall>j<i. vs ! j = None \<or> vs ! j = Some []"
    by auto
  then have "Suc i < length (None # vs) \<and> (None # vs) ! Suc i = Some (first_nonempty (None # vs))
      \<and> (\<forall>j<Suc i. (None # vs) ! j = None \<or> (None # vs) ! j = Some [])"
    by (auto simp: nth_Cons')
  then show ?case by blast
next
  case (3 s vs)
  show ?case
  proof (cases "s = []")
    case True
    with 3 obtain i where i: "i < length vs" "vs ! i = Some (first_nonempty vs)"
        "\<forall>j<i. vs ! j = None \<or> vs ! j = Some []"
      by auto
    with True have "Suc i < length (Some s # vs)
        \<and> (Some s # vs) ! Suc i = Some (first_nonempty (Some s # vs))
        \<and> (\<forall>j<Suc i. (Some s # vs) ! j = None \<or> (Some s # vs) ! j = Some [])"
      by (auto simp: nth_Cons')
    then show ?thesis by blast
  next
    case False
    then have "0 < length (Some s # vs) \<and> (Some s # vs) ! 0 = Some (first_nonempty (Some s # vs))
        \<and> (\<forall>j<0. (Some s # vs) ! j = None \<or> (Some s # vs) ! j = Some [])"
      by simp
    then show ?thesis by blast
  qed
qed

lemma toLowerCase_Nil_iff: "toLowerCase q = [] \<longleftrightarrow> q = []"
  by (simp add: toLowerCase_def)

lemma matchesText_text_match: "matchesText q event = text_match q event"
proof (cases "q = []")
  case True
  then show ?thesis
    by (simp add: matchesText_def text_match_def ci_substring_def toLowerCase_def)
next
  case False
  then have ne: "toLowerCase q \<noteq> []" by (simp add: toLowerCase_Nil_iff)
  have d: "(case description event of None \<Rightarrow> False
            | Some d \<Rightarrow> d \<noteq> [] \<and> includes_str (toLowerCase d) (toLowerCase q))
           = ci_substring q (first_nonempty [description event])"
    using ne by (cases "description event")
      (auto simp: ci_substring_def includes_str_sublist toLowerCase_def)
  have c: "list_ex (\<lambda>cat. includes_str (toLowerCase cat) (toLowerCase q)) cs
           = list_ex (ci_substring q) cs" for cs
    by (simp add: ci_substring_def [abs_def] includes_str_sublist)
  show ?thesis
    unfolding matchesText_def text_match_def Let_def d c
    by (simp add: searchEvents_title_resolved searchEvents_location_resolved
        searchEvents_categories_resolved ci_substring_def includes_str_sublist)
qed

lemma searchEvents_keep_select_keep:
  "searchEvents_keep parse searchParams event = select_keep parse searchParams event"
  unfolding searchEvents_keep_def select_keep_def
  by (cases "query searchParams"; cases "categoryP searchParams"; cases "locationP searchParams")
     (auto simp: matchesText_text_match searchEvents_location_resolved
        searchEvents_categories_resolved)

lemma text_match_empty: "text_match [] event"
  by (simp add: text_match_def ci_substring_def toLowerCase_def)

lemma dateRange_ok_query: "dateRange_ok parse (f\<lparr>query := x\<rparr>) event = dateRange_ok parse f event"
  by (simp add: dateRange_ok_def)

lemma select_keep_query:
  "select_keep parse (f\<lparr>query := Some q\<rparr>) event
   = (text_match q event \<and> select_keep parse (f\<lparr>query := Some []\<rparr>) event)"
  by (auto simp: select_keep_def dateRange_ok_query text_match_empty)

lemma select_filter: "select parse E q f = filter (text_match q) (select parse E [] f)"
proof -
  have "searchEvents_keep parse (f\<lparr>query := Some q\<rparr>) event
        = (searchEvents_keep parse (f\<lparr>query := Some []\<rparr>) event \<and> text_match q event)" for event
    unfolding searchEvents_keep_select_keep
    by (subst select_keep_query) (rule conj_commute)
  then have "searchEvents_keep parse (f\<lparr>query := Some q\<rparr>)
        = (\<lambda>event. searchEvents_keep parse (f\<lparr>query := Some []\<rparr>) event \<and> text_match q event)"
    by (rule ext)
  then show ?thesis
    by (simp only: select_def searchEvents_filter_def filter_filter)
qed

lemma select_sample:
  "select sample_parse [event_a, event_b, event_undated] ''MUS'' no_filters = [event_a, event_undated]"
  by (simp add: select_def searchEvents_filter_def searchEvents_keep_def matchesText_def
      no_filters_def toLowerCase_def isUpper_def searchEvents_title_def searchEvents_location_def
      searchEvents_categories_def category_string_def
      event_undated_def event_a_def event_b_def blank_event_def js_or_def
      js_or_str_def truthy_def language_en_title_def language_en_place_def dateRange_ok_def)

lemma fetches_fetchEvents:
  "fetches (fetchEvents now net this)
   = (case primary net of Loaded events \<Rightarrow> [FetchPrimary] | Failed \<Rightarrow> [FetchPrimary, FetchFallback])"
  by (simp add: fetchEvents_def fetches_def split: outcome.split)

lemma getEvents_miss: "cache_miss now this \<Longrightarrow> getEvents now net this = fetchEvents now net this"
  by (auto simp: cache_miss_def getEvents_def split: option.split)

lemma getEvents_hit:
  "eventsCache this = Some L \<Longrightarrow> now - lastFetch this < cacheExpiry
   \<Longrightarrow> getEvents now net this = (Inr L, this, [])"
  by (simp add: getEvents_def)

lemma getPreferences_cases:
  "getPreferences st =
     (if getItem_throws st then defaultPrefs
      else case item st of JsonText blob \<Rightarrow> spread defaultPrefs blob | _ \<Rightarrow> defaultPrefs)"
  by (simp add: getPreferences_def getPreferences_try_def getItem_def split: stored_item.split)

lemma spread_all_keys: "spread a (all_keys p) = p"
  by (simp add: spread_def all_keys_def)

lemma getPreferences_written:
  "\<not> getItem_throws st \<Longrightarrow> getPreferences (st\<lparr>item := JsonText (all_keys p)\<rparr>) = p"
  by (simp add: getPreferences_cases spread_all_keys)

lemma getPreferences_throws:
  "getItem_throws st \<Longrightarrow> getPreferences st = defaultPrefs"
  by (simp add: getPreferences_cases)

lemma savePreferences_all_keys:
  "savePreferences st (all_keys p)
   = (if setItem_throws st then st else st\<lparr>item := JsonText (all_keys p)\<rparr>)"
  by (simp add: savePreferences_def spread_all_keys)

lemma getPreferences_save:
  "getPreferences (savePreferences st (all_keys p))
   = (if setItem_throws st then getPreferences st
      else if getItem_throws st then defaultPrefs else p)"
  by (simp add: savePreferences_all_keys getPreferences_written getPreferences_throws)

lemma getFavorites_add:
  "getFavorites (addToFavorites st eventId)
   = (if eventId \<in> set (getFavorites st) \<or> setItem_throws st then getFavorites st
      else if getItem_throws st then []
      else getFavorites st @ [eventId])"
  by (simp add: getFavorites_def addToFavorites_def Let_def getPreferences_save defaultPrefs_def)

lemma addToFavorites_twice:
  "addToFavorites (addToFavorites st eventId) eventId = addToFavorites st eventId"
proof (cases "eventId \<in> set (favorites (getPreferences st)) \<or> setItem_throws st")
  case True
  then show ?thesis
    by (auto simp: addToFavorites_def Let_def savePreferences_all_keys)
next
  case False
  then have n: "eventId \<notin> set (favorites (getPreferences st))" and w: "\<not> setItem_throws st"
    by simp_all
  define p where "p = (getPreferences st)\<lparr>favorites := favorites (getPreferences st) @ [eventId]\<rparr>"
  have 1: "addToFavorites st eventId = st\<lparr>item := JsonText (all_keys p)\<rparr>"
    using n w by (simp add: addToFavorites_def Let_def savePreferences_all_keys p_def)
  show ?thesis
  proof (cases "getItem_throws st")
    case True
    then have "getPreferences (st\<lparr>item := JsonText (all_keys p)\<rparr>) = defaultPrefs"
      by (simp add: getPreferences_throws)
    moreover have "getPreferences st = defaultPrefs"
      using True by (simp add: getPreferences_throws)
    ultimately show ?thesis
      unfolding 1 using w
      by (simp add: addToFavorites_def Let_def savePreferences_all_keys p_def defaultPrefs_def)
  next
    case False
    then have "getPreferences (st\<lparr>item := JsonText (all_keys p)\<rparr>) = p"
      by (simp add: getPreferences_written)
    then show ?thesis
      unfolding 1 by (simp add: addToFavorites_def Let_def p_def)
  qed
qed

lemma getFavorites_remove:
  "getFavorites (removeFromFavorites st eventId)
   = (if setItem_throws st then getFavorites st
      else if getItem_throws st then []
      else filter (\<lambda>id. id \<noteq> eventId) (getFavorites st))"
  by (simp add: getFavorites_def removeFromFavorites_def Let_def getPreferences_save defaultPrefs_def)

lemma getFavorites_throws: "getItem_throws st \<Longrightarrow> getFavorites st = []"
  by (simp add: getFavorites_def getPreferences_throws defaultPrefs_def)

lemma getSearchHistory_add:
  "trim q \<noteq> [] \<Longrightarrow> \<not> getItem_throws st \<Longrightarrow> \<not> setItem_throws st \<Longrightarrow>
     getSearchHistory (addSearchToHistory st q)
     = take 10 (q # filter (\<lambda>item. item \<noteq> q) (getSearchHistory st))"
  by (simp add: getSearchHistory_def addSearchToHistory_def Let_def getPreferences_save)

lemma count_list_take_le: "count_list (take n xs) x \<le> count_list xs x"
proof (induction xs arbitrary: n)
  case Nil
  then show ?case by simp
next
  case (Cons y ys)
  then show ?case by (cases n) (auto intro: le_SucI)
qed

lemma count_list_filter_neq: "count_list (filter (\<lambda>item. item \<noteq> q) xs) q = 0"
  by (induction xs) auto

lemma history_shape:
  "length (take 10 (q # filter (\<lambda>item. item \<noteq> q) old)) \<le> 10
   \<and> take 10 (q # filter (\<lambda>item. item \<noteq> q) old) \<noteq> []
   \<and> hd (take 10 (q # filter (\<lambda>item. item \<noteq> q) old)) = q
   \<and> count_list (take 10 (q # filter (\<lambda>item. item \<noteq> q) old)) q = 1
   \<and> (distinct old \<longrightarrow> distinct (take 10 (q # filter (\<lambda>item. item \<noteq> q) old)))"
proof -
  have t: "take 10 (q # filter (\<lambda>item. item \<noteq> q) old)
           = q # take 9 (filter (\<lambda>item. item \<noteq> q) old)"
    by (simp add: take_Cons')
  have "count_list (take 9 (filter (\<lambda>item. item \<noteq> q) old)) q = 0"
    using count_list_take_le [of 9 "filter (\<lambda>item. item \<noteq> q) old" q]
    by (simp add: count_list_filter_neq)
  moreover have "distinct (q # take 9 (filter (\<lambda>item. item \<noteq> q) old))" if "distinct old"
    using that by (auto dest: in_set_takeD)
  ultimately show ?thesis
    unfolding t by simp
qed







subsection \<open>Field resolution\<close>

text \<open>
  Claim C2. For every event, the title that \<^verbatim>\<open>searchEvents\<close> computes is the first
  non-empty value of \<^verbatim>\<open>title\<close>, \<^verbatim>\<open>title_en\<close>, \<^verbatim>\<open>language.en.title\<close>, else the empty
  string; its location is the first non-empty value of \<^verbatim>\<open>location\<close>,
  \<^verbatim>\<open>formatted_address\<close>, \<^verbatim>\<open>city\<close>, \<^verbatim>\<open>language.en.place\<close>, else the empty string; its
  category list is \<^verbatim>\<open>category\<close> itself when that is a list, otherwise the one-element
  list of the first non-empty value of \<^verbatim>\<open>category\<close>, \<^verbatim>\<open>event_category\<close>, else the
  empty string, so that an event without any category has the list holding the empty
  string. The callback of \<^verbatim>\<open>searchEvents\<close> keeps an event exactly when the
  specification's rule on these resolved values does.
\<close>

theorem C2_field_resolution:
  "searchEvents_title event = resolved_title event
   \<and> searchEvents_location event = resolved_location event
   \<and> searchEvents_categories event = resolved_categories event
   \<and> searchEvents_categories (event\<lparr>category := NoCategory, event_category := None\<rparr>) = [[]]
   \<and> searchEvents_keep parse searchParams event = select_keep parse searchParams event"
proof -
  have "searchEvents_categories (event\<lparr>category := NoCategory, event_category := None\<rparr>) = [[]]"
    by (simp add: searchEvents_categories_def category_string_def js_or_def js_or_str_def truthy_def)
  then show ?thesis
    by (simp only: searchEvents_title_resolved searchEvents_location_resolved
        searchEvents_categories_resolved searchEvents_keep_select_keep simp_thms)
qed

theorem C2_field_resolution_witness:
  "searchEvents_title event_undated = ''Jazz Night''
   \<and> searchEvents_location event_undated = ''Akureyri''
   \<and> searchEvents_categories event_undated = [''Music'']
   \<and> searchEvents_categories event_b = [''Art'']
   \<and> searchEvents_categories event_a = [''Music'']
   \<and> select_keep sample_parse (no_filters\<lparr>query := Some ''JAZZ''\<rparr>) event_undated
   \<and> \<not> select_keep sample_parse (no_filters\<lparr>categoryP := Some ''Art''\<rparr>) event_undated"
proof -
  have t: "resolved_title event_undated = ''Jazz Night''"
    by (simp add: resolved_title_def event_undated_def blank_event_def language_en_title_def)
  have l: "resolved_location event_undated = ''Akureyri''"
    by (simp add: resolved_location_def event_undated_def blank_event_def language_en_place_def)
  have c: "resolved_categories event_undated = [''Music'']"
    by (simp add: resolved_categories_def event_undated_def blank_event_def)
  have cb: "resolved_categories event_b = [''Art'']"
    by (simp add: resolved_categories_def event_b_def blank_event_def)
  have ca: "resolved_categories event_a = [''Music'']"
    by (simp add: resolved_categories_def event_a_def blank_event_def)
  have k: "searchEvents_keep sample_parse (no_filters\<lparr>query := Some ''JAZZ''\<rparr>) event_undated"
    by (simp add: searchEvents_keep_def matchesText_def no_filters_def toLowerCase_def
        isUpper_def searchEvents_title_def event_undated_def blank_event_def js_or_def
        js_or_str_def truthy_def language_en_title_def dateRange_ok_def)
  have n: "\<not> searchEvents_keep sample_parse (no_filters\<lparr>categoryP := Some ''Art''\<rparr>) event_undated"
    by (simp add: searchEvents_keep_def no_filters_def searchEvents_categories_def
        category_string_def event_undated_def blank_event_def js_or_def js_or_str_def truthy_def)
  show ?thesis
    using C2_field_resolution [of event_undated sample_parse "no_filters\<lparr>query := Some ''JAZZ''\<rparr>"]
      C2_field_resolution [of event_undated sample_parse "no_filters\<lparr>categoryP := Some ''Art''\<rparr>"]
      C2_field_resolution [of event_a] C2_field_resolution [of event_b]
      t l c cb ca k n
    by simp
qed

subsection \<open>Text queries\<close>

text \<open>
  Claim C5. For every event list \<open>E\<close>, filter state \<open>f\<close> and query \<open>q\<close>, the events
  of \<open>select(E, q, f)\<close> are among those of \<open>select(E, "", f)\<close>: they are the events
  of \<open>select(E, "", f)\<close>, in the same order, for which \<open>q\<close> is a case-insensitive
  substring of the resolved title, the description, the resolved location or some
  resolved category.
\<close>

theorem C5_query_narrows:
  "set (select parse E q f) \<subseteq> set (select parse E [] f)
   \<and> select parse E q f = filter (text_match q) (select parse E [] f)
   \<and> (event \<in> set (select parse E q f)
        \<longleftrightarrow> event \<in> set (select parse E [] f)
            \<and> (ci_substring q (resolved_title event)
                \<or> ci_substring q (first_nonempty [description event])
                \<or> ci_substring q (resolved_location event)
                \<or> list_ex (ci_substring q) (resolved_categories event)))"
proof -
  have f: "select parse E q f = filter (text_match q) (select parse E [] f)"
    by (rule select_filter)
  show ?thesis
    unfolding f by (auto simp: text_match_def)
qed

lemma select_sample_all:
  "select sample_parse [event_a, event_b, event_undated] [] no_filters
   = [event_a, event_b, event_undated]"
  by (simp add: select_def searchEvents_filter_def searchEvents_keep_def no_filters_def
      dateRange_ok_def truthy_def)

theorem C5_query_narrows_witness:
  "set (select sample_parse [event_a, event_b, event_undated] ''MUS'' no_filters)
     \<subseteq> set (select sample_parse [event_a, event_b, event_undated] [] no_filters)
   \<and> select sample_parse [event_a, event_b, event_undated] ''MUS'' no_filters
     = [event_a, event_undated]
   \<and> filter (text_match ''MUS'') [event_a, event_b, event_undated] = [event_a, event_undated]"
  using C5_query_narrows [of sample_parse "[event_a, event_b, event_undated]" "''MUS''" no_filters]
    select_sample select_sample_all
  by simp

subsection \<open>The cache\<close>

lemma fetchEvents_success:
  "returned (fetchEvents t0 net0 this0) = Inr L
   \<Longrightarrow> state_after (fetchEvents t0 net0 this0) = \<lparr>eventsCache = Some L, lastFetch = t0\<rparr>"
  by (auto simp: fetchEvents_def returned_def state_after_def split: outcome.splits)

lemma getEvents_success:
  "cache_miss t0 this0 \<Longrightarrow> returned (getEvents t0 net0 this0) = Inr L
   \<Longrightarrow> state_after (getEvents t0 net0 this0) = \<lparr>eventsCache = Some L, lastFetch = t0\<rparr>"
  by (simp add: getEvents_miss fetchEvents_success)

lemma getEvents_window:
  "(eventsCache this = Some L \<and> t - lastFetch this < 300000
      \<longrightarrow> getEvents t net this = (Inr L, this, []))
   \<and> (eventsCache this = None \<or> 300000 \<le> t - lastFetch this
      \<longrightarrow> count_list (fetches (getEvents t net this)) FetchPrimary = 1
          \<and> take 1 (fetches (getEvents t net this)) = [FetchPrimary])"
proof -
  have c: "cacheExpiry = 300000" by (simp add: cacheExpiry_def)
  have hit: "getEvents t net this = (Inr L, this, [])"
    if "eventsCache this = Some L" "t - lastFetch this < 300000"
    using that by (simp add: getEvents_hit c)
  have miss: "count_list (fetches (getEvents t net this)) FetchPrimary = 1
      \<and> take 1 (fetches (getEvents t net this)) = [FetchPrimary]"
    if "eventsCache this = None \<or> 300000 \<le> t - lastFetch this"
  proof -
    from that have "cache_miss t this" by (simp add: cache_miss_def c)
    then have "getEvents t net this = fetchEvents t net this" by (rule getEvents_miss)
    then show ?thesis by (simp add: fetches_fetchEvents split: outcome.split)
  qed
  from hit miss show ?thesis by blast
qed

text \<open>
  Claim C1. A successful fetch at time \<open>t0\<close>, that is a cache-miss call of
  \<^verbatim>\<open>getEvents\<close> at \<open>t0\<close> that returns the list \<open>L\<close>, leaves the state holding \<open>L\<close>
  with fetch time \<open>t0\<close>. In that state a call at time \<open>t\<close> with \<open>t - t0 < 300000\<close>
  returns \<open>L\<close>, leaves the state as it is and makes no fetch; a call with
  \<open>t - t0 \<ge> 300000\<close> makes exactly one fetch of the primary endpoint, as its first
  fetch. The same holds in every state that holds a list \<open>L\<close> and a fetch time, and a
  call in a state with nothing cached, as before any successful fetch, makes exactly
  one fetch of the primary endpoint, as its first fetch.
\<close>

theorem C1_cache_window:
  "(cache_miss t0 this0 \<and> returned (getEvents t0 net0 this0) = Inr L
      \<longrightarrow> state_after (getEvents t0 net0 this0) = \<lparr>eventsCache = Some L, lastFetch = t0\<rparr>
          \<and> (t - t0 < 300000
               \<longrightarrow> getEvents t net (state_after (getEvents t0 net0 this0))
                   = (Inr L, state_after (getEvents t0 net0 this0), []))
          \<and> (300000 \<le> t - t0
               \<longrightarrow> count_list (fetches (getEvents t net (state_after (getEvents t0 net0 this0))))
                     FetchPrimary = 1
                   \<and> take 1 (fetches (getEvents t net (state_after (getEvents t0 net0 this0))))
                     = [FetchPrimary]))
   \<and> (eventsCache this = Some L \<and> t - lastFetch this < 300000
      \<longrightarrow> getEvents t net this = (Inr L, this, []))
   \<and> (eventsCache this = None \<or> 300000 \<le> t - lastFetch this
      \<longrightarrow> count_list (fetches (getEvents t net this)) FetchPrimary = 1
          \<and> take 1 (fetches (getEvents t net this)) = [FetchPrimary])"
proof -
  have first: "state_after (getEvents t0 net0 this0) = \<lparr>eventsCache = Some L, lastFetch = t0\<rparr>
      \<and> (t - t0 < 300000
           \<longrightarrow> getEvents t net (state_after (getEvents t0 net0 this0))
               = (Inr L, state_after (getEvents t0 net0 this0), []))
      \<and> (300000 \<le> t - t0
           \<longrightarrow> count_list (fetches (getEvents t net (state_after (getEvents t0 net0 this0))))
                 FetchPrimary = 1
               \<and> take 1 (fetches (getEvents t net (state_after (getEvents t0 net0 this0))))
                 = [FetchPrimary])"
    if "cache_miss t0 this0 \<and> returned (getEvents t0 net0 this0) = Inr L"
  proof -
    from that have s: "state_after (getEvents t0 net0 this0)
        = \<lparr>eventsCache = Some L, lastFetch = t0\<rparr>"
      by (simp add: getEvents_success)
    show ?thesis
      unfolding s
      using getEvents_window [of "\<lparr>eventsCache = Some L, lastFetch = t0\<rparr>" L t net]
      by simp
  qed
  from first getEvents_window [of this L t net] show ?thesis by blast
qed

theorem C1_cache_window_witness:
  "cache_miss 1000 new_EventsApi
   \<and> returned (getEvents 1000 \<lparr>primary = Loaded [event_a], fallback = Failed\<rparr> new_EventsApi)
     = Inr [event_a]
   \<and> state_after (getEvents 1000 \<lparr>primary = Loaded [event_a], fallback = Failed\<rparr> new_EventsApi)
     = \<lparr>eventsCache = Some [event_a], lastFetch = 1000\<rparr>
   \<and> getEvents 300999 \<lparr>primary = Loaded [event_b], fallback = Failed\<rparr>
        \<lparr>eventsCache = Some [event_a], lastFetch = 1000\<rparr>
     = (Inr [event_a], \<lparr>eventsCache = Some [event_a], lastFetch = 1000\<rparr>, [])
   \<and> count_list (fetches (getEvents 301000 \<lparr>primary = Loaded [event_b], fallback = Failed\<rparr>
        \<lparr>eventsCache = Some [event_a], lastFetch = 1000\<rparr>)) FetchPrimary = 1
   \<and> count_list (fetches (getEvents 0 \<lparr>primary = Failed, fallback = Failed\<rparr> new_EventsApi))
        FetchPrimary = 1"
proof -
  have m: "cache_miss 1000 new_EventsApi"
    by (simp add: cache_miss_def new_EventsApi_def)
  have r: "returned (getEvents 1000 \<lparr>primary = Loaded [event_a], fallback = Failed\<rparr> new_EventsApi)
     = Inr [event_a]"
    by (simp add: getEvents_def fetchEvents_def new_EventsApi_def returned_def)
  have n: "eventsCache new_EventsApi = None"
    by (simp add: new_EventsApi_def)
  show ?thesis
    using m r n
      C1_cache_window [of 1000 new_EventsApi "\<lparr>primary = Loaded [event_a], fallback = Failed\<rparr>"
        "[event_a]" 300999 "\<lparr>primary = Loaded [event_b], fallback = Failed\<rparr>" new_EventsApi]
      C1_cache_window [of 1000 new_EventsApi "\<lparr>primary = Loaded [event_a], fallback = Failed\<rparr>"
        "[event_a]" 301000 "\<lparr>primary = Loaded [event_b], fallback = Failed\<rparr>" new_EventsApi]
      C1_cache_window [of 1000 new_EventsApi "\<lparr>primary = Loaded [event_a], fallback = Failed\<rparr>"
        "[event_a]" 0 "\<lparr>primary = Failed, fallback = Failed\<rparr>" new_EventsApi]
    by simp
qed

text \<open>
  Claim C3. When a cache-miss call of \<^verbatim>\<open>getEvents\<close> finds both the primary and the
  fallback fetch failing, it raises the one error \<^verbatim>\<open>Unable to load events data\<close> and
  the cached list and its fetch time are exactly what they were before the call.
\<close>

theorem C3_failed_refresh:
  "cache_miss now this \<Longrightarrow> primary net = Failed \<Longrightarrow> fallback net = Failed
   \<Longrightarrow> getEvents now net this = (Inl UnableToLoadEvents, this, [FetchPrimary, FetchFallback])"
  by (simp add: getEvents_miss fetchEvents_def)

theorem C3_failed_refresh_witness:
  "cache_miss 301000 \<lparr>eventsCache = Some [event_a], lastFetch = 0\<rparr>
   \<and> getEvents 301000 \<lparr>primary = Failed, fallback = Failed\<rparr>
        \<lparr>eventsCache = Some [event_a], lastFetch = 0\<rparr>
      = (Inl UnableToLoadEvents, \<lparr>eventsCache = Some [event_a], lastFetch = 0\<rparr>,
         [FetchPrimary, FetchFallback])"
proof -
  have m: "cache_miss 301000 \<lparr>eventsCache = Some [event_a], lastFetch = 0\<rparr>"
    by (simp add: cache_miss_def cacheExpiry_def)
  show ?thesis
    using m C3_failed_refresh [OF m, of "\<lparr>primary = Failed, fallback = Failed\<rparr>"]
    by simp
qed

text \<open>
  Claim C9, as stated: on every cache-miss call exactly one of the primary fetch and the
  fallback fetch occurs. It fails when the primary fetch fails: both fetches are made.
\<close>

theorem C9_two_fetches_counterexample:
  "cache_miss 0 new_EventsApi
   \<and> fetches (getEvents 0 \<lparr>primary = Failed, fallback = Loaded [event_a]\<rparr> new_EventsApi)
      = [FetchPrimary, FetchFallback]"
  by (simp add: cache_miss_def new_EventsApi_def getEvents_def fetchEvents_def fetches_def)

text \<open>
  Claim C9, amended. On every cache-miss call of \<^verbatim>\<open>getEvents\<close> the primary fetch is
  made first and once; the fallback fetch is made exactly when the primary fetch has
  failed, and after it. So one fetch occurs when the primary succeeds and two occur, in
  this order, when it fails; the fallback is never fetched before the primary nor when
  the primary succeeds. A call that is no cache miss makes no fetch.
\<close>

theorem C9_fetch_order:
  "fetches (getEvents now net this)
   = (if cache_miss now this
      then (case primary net of Loaded events \<Rightarrow> [FetchPrimary]
            | Failed \<Rightarrow> [FetchPrimary, FetchFallback])
      else [])"
proof (cases "cache_miss now this")
  case True
  then show ?thesis by (simp add: getEvents_miss fetches_fetchEvents)
next
  case False
  then show ?thesis
    by (auto simp: cache_miss_def getEvents_def fetches_def)
qed

theorem C9_fetch_order_witness:
  "fetches (getEvents 0 \<lparr>primary = Loaded [event_a], fallback = Loaded [event_b]\<rparr> new_EventsApi)
      = [FetchPrimary]
   \<and> fetches (getEvents 0 \<lparr>primary = Failed, fallback = Failed\<rparr> new_EventsApi)
      = [FetchPrimary, FetchFallback]
   \<and> fetches (getEvents 1000 \<lparr>primary = Failed, fallback = Failed\<rparr>
        \<lparr>eventsCache = Some [event_a], lastFetch = 0\<rparr>) = []"
proof -
  have m: "cache_miss 0 new_EventsApi"
    by (simp add: cache_miss_def new_EventsApi_def)
  have h: "\<not> cache_miss 1000 \<lparr>eventsCache = Some [event_a], lastFetch = 0\<rparr>"
    by (simp add: cache_miss_def cacheExpiry_def)
  show ?thesis
    using m h
      C9_fetch_order [of 0 "\<lparr>primary = Loaded [event_a], fallback = Loaded [event_b]\<rparr>" new_EventsApi]
      C9_fetch_order [of 0 "\<lparr>primary = Failed, fallback = Failed\<rparr>" new_EventsApi]
      C9_fetch_order [of 1000 "\<lparr>primary = Failed, fallback = Failed\<rparr>"
        "\<lparr>eventsCache = Some [event_a], lastFetch = 0\<rparr>"]
    by simp
qed

text \<open>
  Claim C10. When \<^verbatim>\<open>getEvents\<close> delivers the event list, \<^verbatim>\<open>getEventById(id)\<close>
  returns the first event of the list, in its order, whose \<^verbatim>\<open>id\<close> equals the
  identifier, and returns \<^verbatim>\<open>undefined\<close>, without raising, exactly when no event of the
  list has that identifier.
\<close>

theorem C10_getEventById:
  "returned (getEvents now net this) = Inr events \<Longrightarrow>
     returned (getEventById now net this eventId)
       = Inr (find (\<lambda>event. id_field event = eventId) events)
     \<and> (returned (getEventById now net this eventId) = Inr None
          \<longleftrightarrow> eventId \<notin> id_field ` set events)
     \<and> (\<forall>e. returned (getEventById now net this eventId) = Inr (Some e)
          \<longleftrightarrow> (\<exists>i<length events. events ! i = e \<and> id_field e = eventId
                \<and> (\<forall>j<i. id_field (events ! j) \<noteq> eventId)))"
proof -
  assume a: "returned (getEvents now net this) = Inr events"
  have r: "returned (getEventById now net this eventId)
       = Inr (find (\<lambda>event. id_field event = eventId) events)"
    using a by (cases "getEvents now net this") (auto simp: getEventById_def returned_def)
  have n: "find (\<lambda>event. id_field event = eventId) events = None
       \<longleftrightarrow> eventId \<notin> id_field ` set events"
    by (auto simp: find_None_iff)
  have s: "find (\<lambda>event. id_field event = eventId) events = Some e
       \<longleftrightarrow> (\<exists>i<length events. events ! i = e \<and> id_field e = eventId
                \<and> (\<forall>j<i. id_field (events ! j) \<noteq> eventId))" for e
    by (auto simp: find_Some_iff)
  show ?thesis
    unfolding r using n s by simp
qed

theorem C10_getEventById_witness:
  "returned (getEvents 0
       \<lparr>primary = Loaded [event_a, event_b, event_b\<lparr>title := Some ''later''\<rparr>], fallback = Failed\<rparr>
       new_EventsApi)
     = Inr [event_a, event_b, event_b\<lparr>title := Some ''later''\<rparr>]
   \<and> returned (getEventById 0
       \<lparr>primary = Loaded [event_a, event_b, event_b\<lparr>title := Some ''later''\<rparr>], fallback = Failed\<rparr>
       new_EventsApi ''b'')
     = Inr (Some event_b)
   \<and> returned (getEventById 0
       \<lparr>primary = Loaded [event_a, event_b, event_b\<lparr>title := Some ''later''\<rparr>], fallback = Failed\<rparr>
       new_EventsApi ''zzz'')
     = Inr None"
proof -
  have g: "returned (getEvents 0
       \<lparr>primary = Loaded [event_a, event_b, event_b\<lparr>title := Some ''later''\<rparr>], fallback = Failed\<rparr>
       new_EventsApi)
     = Inr [event_a, event_b, event_b\<lparr>title := Some ''later''\<rparr>]"
    by (simp add: getEvents_def fetchEvents_def new_EventsApi_def returned_def)
  have i: "id_field event_a = ''a''" "id_field event_b = ''b''"
    by (simp_all add: event_a_def event_b_def)
  show ?thesis
    using g C10_getEventById [OF g, of "''b''"] C10_getEventById [OF g, of "''zzz''"]
    by (simp add: i)
qed

subsection \<open>Dates\<close>




subsection \<open>The preferences store\<close>

text \<open>
  Claim C8. When the stored entry is absent, empty or malformed JSON, or when reading
  the storage throws, \<^verbatim>\<open>getPreferences\<close> returns the default blob (no favorites,
  theme \<^verbatim>\<open>light\<close>, language \<^verbatim>\<open>en\<close>, notifications on, empty search history); the
  errors of the \<^verbatim>\<open>try\<close> block are caught, and the function returns a blob in every
  case. When a valid blob is stored, each of its keys overrides the default and each
  missing key keeps it.
\<close>

theorem C8_getPreferences_defaults:
  "(getItem_throws st \<or> item st = NoItem \<or> item st = EmptyText \<or> item st = MalformedText
      \<longrightarrow> getPreferences st
          = \<lparr>favorites = [], theme = ''light'', language_pref = ''en'', notifications = True,
             searchHistory = []\<rparr>)
   \<and> (getItem_throws st \<longrightarrow> getPreferences_try st = Inl SecurityError)
   \<and> (\<not> getItem_throws st \<and> item st = MalformedText
      \<longrightarrow> getPreferences_try st = Inl SyntaxError)
   \<and> (\<not> getItem_throws st \<and> item st = JsonText blob
      \<longrightarrow> getPreferences st
          = \<lparr>favorites = (case favorites_key blob of None \<Rightarrow> [] | Some v \<Rightarrow> v),
             theme = (case theme_key blob of None \<Rightarrow> ''light'' | Some v \<Rightarrow> v),
             language_pref = (case language_key blob of None \<Rightarrow> ''en'' | Some v \<Rightarrow> v),
             notifications = (case notifications_key blob of None \<Rightarrow> True | Some v \<Rightarrow> v),
             searchHistory = (case searchHistory_key blob of None \<Rightarrow> [] | Some v \<Rightarrow> v)\<rparr>)"
  by (auto simp: getPreferences_cases getPreferences_try_def getItem_def defaultPrefs_def spread_def
      split: option.split)

theorem C8_getPreferences_defaults_witness:
  "getPreferences \<lparr>item = MalformedText, getItem_throws = False, setItem_throws = False\<rparr>
     = \<lparr>favorites = [], theme = ''light'', language_pref = ''en'', notifications = True,
        searchHistory = []\<rparr>
   \<and> getPreferences \<lparr>item = NoItem, getItem_throws = True, setItem_throws = False\<rparr>
     = \<lparr>favorites = [], theme = ''light'', language_pref = ''en'', notifications = True,
        searchHistory = []\<rparr>
   \<and> getPreferences (storage_with (no_keys\<lparr>theme_key := Some ''dark'', favorites_key := Some [''a'']\<rparr>))
     = \<lparr>favorites = [''a''], theme = ''dark'', language_pref = ''en'', notifications = True,
        searchHistory = []\<rparr>"
  using C8_getPreferences_defaults
      [of "\<lparr>item = MalformedText, getItem_throws = False, setItem_throws = False\<rparr>"]
    C8_getPreferences_defaults
      [of "\<lparr>item = NoItem, getItem_throws = True, setItem_throws = False\<rparr>"]
    C8_getPreferences_defaults
      [of "storage_with (no_keys\<lparr>theme_key := Some ''dark'', favorites_key := Some [''a'']\<rparr>)"
          "no_keys\<lparr>theme_key := Some ''dark'', favorites_key := Some [''a'']\<rparr>"]
  by (simp add: storage_with_def no_keys_def)

lemma addToFavorites_member:
  "eventId \<in> set (getFavorites st) \<Longrightarrow> addToFavorites st eventId = st"
  by (simp add: addToFavorites_def getFavorites_def)

lemma removeFromFavorites_refused:
  "setItem_throws st \<Longrightarrow> removeFromFavorites st eventId = st"
  by (simp add: removeFromFavorites_def Let_def savePreferences_all_keys)

text \<open>
  Claim C7, as stated: for every stored state an added identifier appears at most once,
  and after \<^verbatim>\<open>removeFromFavorites(id)\<close> the identifier is no favorite. Both fail.
  Stored favorites that hold an identifier twice keep both entries when it is added.
  On a storage that refuses the write, the removed identifier is still a favorite.
\<close>

theorem C7_favorites_counterexample:
  "getFavorites (addToFavorites (addToFavorites
       (storage_with (no_keys\<lparr>favorites_key := Some [''a'', ''a'']\<rparr>)) ''a'') ''a'')
     = [''a'', ''a'']
   \<and> getFavorites (removeFromFavorites
       \<lparr>item = JsonText (no_keys\<lparr>favorites_key := Some [''a'']\<rparr>),
        getItem_throws = False, setItem_throws = True\<rparr> ''a'')
     = [''a'']"
proof -
  have 1: "getFavorites (storage_with (no_keys\<lparr>favorites_key := Some [''a'', ''a'']\<rparr>))
      = [''a'', ''a'']"
    by (simp add: getFavorites_def getPreferences_cases storage_with_def no_keys_def spread_def)
  have 2: "getFavorites \<lparr>item = JsonText (no_keys\<lparr>favorites_key := Some [''a'']\<rparr>),
        getItem_throws = False, setItem_throws = True\<rparr> = [''a'']"
    by (simp add: getFavorites_def getPreferences_cases no_keys_def spread_def)
  show ?thesis
    by (simp add: getFavorites_add getFavorites_remove 1 2)
qed

text \<open>
  Claim C7, amended. For every stored state and event identifier, adding a favorite
  twice leaves the storage, and so the favorites, exactly as adding it once does:
  adding an identifier that is a favorite already changes nothing, so that entries
  stored twice stay; an identifier that was no favorite has at most one entry
  afterwards, and favorites without duplicates stay without duplicates. On a storage
  that reads and writes, adding makes the identifier a favorite beside the former
  ones. Removing an identifier that is no favorite leaves the favorites as they were.
  After a removal that the storage takes, the identifier is no favorite; when the
  storage refuses the write, \<^verbatim>\<open>savePreferences\<close> catches the error and the storage is
  as it was.
\<close>

theorem C7_favorites:
  "addToFavorites (addToFavorites st eventId) eventId = addToFavorites st eventId
   \<and> set (getFavorites (addToFavorites (addToFavorites st eventId) eventId))
       = set (getFavorites (addToFavorites st eventId))
   \<and> (eventId \<in> set (getFavorites st) \<longrightarrow> addToFavorites st eventId = st)
   \<and> (eventId \<notin> set (getFavorites st)
        \<longrightarrow> count_list (getFavorites (addToFavorites (addToFavorites st eventId) eventId)) eventId \<le> 1)
   \<and> (\<not> getItem_throws st \<and> \<not> setItem_throws st
        \<longrightarrow> set (getFavorites (addToFavorites st eventId)) = insert eventId (set (getFavorites st)))
   \<and> (distinct (getFavorites st) \<longrightarrow> distinct (getFavorites (addToFavorites st eventId)))
   \<and> (eventId \<notin> set (getFavorites st)
        \<longrightarrow> getFavorites (removeFromFavorites st eventId) = getFavorites st)
   \<and> (\<not> setItem_throws st \<longrightarrow> eventId \<notin> set (getFavorites (removeFromFavorites st eventId)))
   \<and> (setItem_throws st \<longrightarrow> removeFromFavorites st eventId = st)"
proof -
  have a: "addToFavorites (addToFavorites st eventId) eventId = addToFavorites st eventId"
    by (rule addToFavorites_twice)
  have e: "addToFavorites st eventId = st" if "eventId \<in> set (getFavorites st)"
    using that by (rule addToFavorites_member)
  have c: "count_list (getFavorites (addToFavorites st eventId)) eventId \<le> 1"
    if "eventId \<notin> set (getFavorites st)"
    using that by (simp add: getFavorites_add)
  have i: "set (getFavorites (addToFavorites st eventId)) = insert eventId (set (getFavorites st))"
    if "\<not> getItem_throws st \<and> \<not> setItem_throws st"
    using that by (auto simp: getFavorites_add)
  have d: "distinct (getFavorites (addToFavorites st eventId))" if "distinct (getFavorites st)"
    using that by (simp add: getFavorites_add)
  have r: "getFavorites (removeFromFavorites st eventId) = getFavorites st"
    if "eventId \<notin> set (getFavorites st)"
  proof -
    have "filter (\<lambda>id. id \<noteq> eventId) (getFavorites st) = getFavorites st"
      using that by (auto simp: filter_id_conv)
    then show ?thesis
      by (simp add: getFavorites_remove getFavorites_throws)
  qed
  have m: "eventId \<notin> set (getFavorites (removeFromFavorites st eventId))"
    if "\<not> setItem_throws st"
    using that by (simp add: getFavorites_remove)
  have w: "removeFromFavorites st eventId = st" if "setItem_throws st"
    using that by (rule removeFromFavorites_refused)
  show ?thesis
    unfolding a using e c i d r m w by blast
qed

lemma sample_favorites:
  "getFavorites (storage_with (no_keys\<lparr>favorites_key := Some h\<rparr>)) = h"
  by (simp add: getFavorites_def getPreferences_cases storage_with_def no_keys_def spread_def)

theorem C7_favorites_witness:
  "getFavorites (addToFavorites (addToFavorites
       (storage_with (no_keys\<lparr>favorites_key := Some [''b'']\<rparr>)) ''a'') ''a'') = [''b'', ''a'']
   \<and> getFavorites (removeFromFavorites
       (storage_with (no_keys\<lparr>favorites_key := Some [''b'']\<rparr>)) ''a'') = [''b'']
   \<and> getFavorites (removeFromFavorites
       (storage_with (no_keys\<lparr>favorites_key := Some [''b'', ''a'']\<rparr>)) ''a'') = [''b'']"
proof -
  have s: "\<not> getItem_throws (storage_with blob)" "\<not> setItem_throws (storage_with blob)" for blob
    by (simp_all add: storage_with_def)
  have 1: "getFavorites (addToFavorites
       (storage_with (no_keys\<lparr>favorites_key := Some [''b'']\<rparr>)) ''a'') = [''b'', ''a'']"
    by (simp add: getFavorites_add sample_favorites s)
  have 2: "getFavorites (removeFromFavorites
       (storage_with (no_keys\<lparr>favorites_key := Some [''b'', ''a'']\<rparr>)) ''a'') = [''b'']"
    by (simp add: getFavorites_remove sample_favorites s)
  show ?thesis
    using C7_favorites [of "storage_with (no_keys\<lparr>favorites_key := Some [''b'']\<rparr>)" "''a''"]
      1 2
    by (simp add: sample_favorites)
qed

text \<open>
  Claim C6, as stated: after any call of \<^verbatim>\<open>addSearchToHistory\<close> on any stored state
  the history has no duplicates. It fails on a stored history that has duplicates of
  another query: they stay.
\<close>

theorem C6_duplicates_counterexample:
  "getSearchHistory
     (addSearchToHistory (storage_with (no_keys\<lparr>searchHistory_key := Some [''a'', ''a'']\<rparr>)) ''b'')
   = [''b'', ''a'', ''a'']"
proof -
  have "getSearchHistory (storage_with (no_keys\<lparr>searchHistory_key := Some [''a'', ''a'']\<rparr>))
        = [''a'', ''a'']"
    by (simp add: getSearchHistory_def getPreferences_cases storage_with_def no_keys_def spread_def)
  moreover have "trim ''b'' \<noteq> []"
    by (simp add: trim_def isSpace_def)
  ultimately show ?thesis
    by (simp add: getSearchHistory_add storage_with_def)
qed

text \<open>
  Claim C6, amended. \<^verbatim>\<open>addSearchToHistory(q)\<close> changes nothing when \<open>q\<close> is blank or
  white space only. Otherwise, on a storage that reads and writes, it removes every
  entry equal to \<open>q\<close>, puts \<open>q\<close> in front and keeps the first 10 entries: after the
  call the history has at most 10 entries and \<open>q\<close> stands in it exactly once, at the
  front; and it has no duplicates when the stored history had none.
\<close>

theorem C6_search_history:
  "(trim q = [] \<longrightarrow> addSearchToHistory st q = st)
   \<and> (trim q \<noteq> [] \<and> \<not> getItem_throws st \<and> \<not> setItem_throws st \<longrightarrow>
        getSearchHistory (addSearchToHistory st q)
          = take 10 (q # filter (\<lambda>item. item \<noteq> q) (getSearchHistory st))
        \<and> length (getSearchHistory (addSearchToHistory st q)) \<le> 10
        \<and> getSearchHistory (addSearchToHistory st q) \<noteq> []
        \<and> hd (getSearchHistory (addSearchToHistory st q)) = q
        \<and> count_list (getSearchHistory (addSearchToHistory st q)) q = 1
        \<and> (distinct (getSearchHistory st)
             \<longrightarrow> distinct (getSearchHistory (addSearchToHistory st q))))"
proof -
  have b: "addSearchToHistory st q = st" if "trim q = []"
    using that by (simp add: addSearchToHistory_def)
  have n: "getSearchHistory (addSearchToHistory st q)
          = take 10 (q # filter (\<lambda>item. item \<noteq> q) (getSearchHistory st))"
    if "trim q \<noteq> [] \<and> \<not> getItem_throws st \<and> \<not> setItem_throws st"
    using that by (simp add: getSearchHistory_add)
  show ?thesis
    using b n history_shape [where q = q and old = "getSearchHistory st"] by presburger
qed

lemma sample_history:
  "getSearchHistory (storage_with (no_keys\<lparr>searchHistory_key := Some h\<rparr>)) = h"
  by (simp add: getSearchHistory_def getPreferences_cases storage_with_def no_keys_def spread_def)

theorem C6_search_history_witness:
  "addSearchToHistory (storage_with no_keys) ''  '' = storage_with no_keys
   \<and> getSearchHistory
        (addSearchToHistory
          (storage_with (no_keys\<lparr>searchHistory_key := Some [''jazz'', ''reykjavik'']\<rparr>))
          ''reykjavik'')
      = [''reykjavik'', ''jazz'']"
proof -
  have b: "trim ''  '' = []" by (simp add: trim_def isSpace_def)
  have n: "trim ''reykjavik'' \<noteq> []" by (simp add: trim_def isSpace_def)
  have s: "\<not> getItem_throws (storage_with blob) \<and> \<not> setItem_throws (storage_with blob)" for blob
    by (simp add: storage_with_def)
  show ?thesis
    using C6_search_history [of "''  ''" "storage_with no_keys"]
      C6_search_history [of "''reykjavik''"
        "storage_with (no_keys\<lparr>searchHistory_key := Some [''jazz'', ''reykjavik'']\<rparr>)"]
      b n s
    by (simp add: sample_history)
qed

end
